theory Spec2Isabelle
  imports Main
begin

section \<open>The page state of \<open>src/js/main.js\<close>\<close>

text \<open>
  The script keeps its state in the document and in three module-level variables.
  The page record below holds exactly the parts of the document the script reads or
  writes, with pixel quantities as integers and the time of the timer queue in
  milliseconds.

  \<^item> \<open>menuToggle\<close>, \<open>navLinks\<close>, \<open>header\<close> are the three constants bound by
    \<open>document.getElementById\<close> at load; \<open>None\<close> is JavaScript's \<open>null\<close>
    (no element with that identifier).
  \<^item> \<open>navLinkItems\<close> is the static node list of \<open>querySelectorAll('.nav-links a')\<close>.
  \<^item> Of a class list only the classes the script touches are kept, each as a flag.
  \<^item> A statement that dereferences \<open>null\<close> throws a \<open>TypeError\<close>; the statements
    executed before it keep their effect, so every handler returns the error (if any)
    together with the page as it is when the handler stops.
\<close>

datatype error = TypeError

record link =
  href :: "string option"       \<comment> \<open>\<open>getAttribute('href')\<close>, \<open>None\<close> when the attribute is absent\<close>
  link_active :: bool            \<comment> \<open>\<open>classList\<close> contains \<open>'active'\<close>\<close>

record sect =
  sect_id :: string              \<comment> \<open>\<open>getAttribute('id')\<close> of a \<open>section[id]\<close>\<close>
  offsetTop :: int
  offsetHeight :: int

record panel =
  panel_active :: bool           \<comment> \<open>\<open>navLinks.classList\<close> contains \<open>'active'\<close>\<close>

record toggle =
  toggle_active :: bool          \<comment> \<open>\<open>menuToggle.classList\<close> contains \<open>'active'\<close>\<close>
  aria_expanded :: "string option"

record hdr =
  scrolled :: bool               \<comment> \<open>\<open>header.classList\<close> contains \<open>'scrolled'\<close>\<close>
  hdr_offsetHeight :: int

datatype frame_cb = HeaderFrame | NavFrame

record page =
  menuToggle :: "toggle option"
  navLinks :: "panel option"
  header :: "hdr option"
  navLinkItems :: "link list"
  sections :: "sect list"
  elements :: "(string \<times> int) list"  \<comment> \<open>identifier and \<open>offsetTop\<close> of the elements, in document order\<close>
  body_overflow :: string
  innerWidth :: int
  scrollY :: int
  isScrolling :: bool
  frame_queue :: "frame_cb list"       \<comment> \<open>callbacks handed to \<open>requestAnimationFrame\<close>\<close>
  resizeTimer :: "nat option"          \<comment> \<open>\<open>None\<close> is \<open>undefined\<close>\<close>
  timers :: "(nat \<times> nat) list"         \<comment> \<open>pending \<open>setTimeout\<close> callbacks: handle and due time\<close>
  next_handle :: nat
  now :: nat
  resize_log :: "nat list"             \<comment> \<open>times at which \<open>'Window resized'\<close> was logged\<close>
  default_prevented :: bool            \<comment> \<open>\<open>preventDefault\<close> was called on the current event\<close>
  scroll_requests :: "int list"        \<comment> \<open>the \<open>top\<close> of every \<open>window.scrollTo\<close> call\<close>

type_synonym handler = "page \<Rightarrow> error option \<times> page"

section \<open>Mobile menu\<close>

text \<open>\<open>String(isExpanded)\<close>, as \<open>setAttribute\<close> stores a boolean.\<close>

definition bool_str :: "bool \<Rightarrow> string" where
  "bool_str b = (if b then ''true'' else ''false'')"

text \<open>\<open>function toggleMenu()\<close>, lines 20 to 34.\<close>

definition toggleMenu :: handler where
  "toggleMenu d =
     (case navLinks d of
        None \<Rightarrow> (Some TypeError, d)
      | Some p \<Rightarrow>
          let d1 = d\<lparr>navLinks := Some (p\<lparr>panel_active := \<not> panel_active p\<rparr>)\<rparr> in
          (case menuToggle d1 of
             None \<Rightarrow> (Some TypeError, d1)
           | Some t \<Rightarrow>
               let isExpanded = \<not> panel_active p;
                   t1 = t\<lparr>toggle_active := \<not> toggle_active t\<rparr>;
                   t2 = t1\<lparr>aria_expanded := Some (bool_str isExpanded)\<rparr>;
                   d2 = d1\<lparr>menuToggle := Some t2\<rparr>
               in (None, d2\<lparr>body_overflow := (if isExpanded then ''hidden'' else '''')\<rparr>)))"

text \<open>\<open>function closeMenu()\<close>, lines 39 to 44.\<close>

definition closeMenu :: handler where
  "closeMenu d =
     (case navLinks d of
        None \<Rightarrow> (Some TypeError, d)
      | Some p \<Rightarrow>
          let d1 = d\<lparr>navLinks := Some (p\<lparr>panel_active := False\<rparr>)\<rparr> in
          (case menuToggle d1 of
             None \<Rightarrow> (Some TypeError, d1)
           | Some t \<Rightarrow>
               let t1 = t\<lparr>toggle_active := False\<rparr>;
                   t2 = t1\<lparr>aria_expanded := Some ''false''\<rparr>;
                   d2 = d1\<lparr>menuToggle := Some t2\<rparr>
               in (None, d2\<lparr>body_overflow := ''''\<rparr>)))"

text \<open>
  Lines 47 to 49: the click listener of the toggle is attached only when the toggle
  exists. \<open>menuToggle\<close> is a constant, so the listener is attached exactly when the
  field is not \<open>None\<close>; with no listener a click runs nothing.
\<close>

definition toggle_click :: handler where
  "toggle_click d = (case menuToggle d of None \<Rightarrow> (None, d) | Some t \<Rightarrow> toggleMenu d)"

text \<open>Lines 52 to 58: the first click listener of every nav link.\<close>

definition link_close_click :: handler where
  "link_close_click d = (if innerWidth d \<le> 768 then closeMenu d else (None, d))"

text \<open>
  A click, as far as the listeners can tell clicks apart: the nav link (an index into
  \<open>navLinkItems\<close>) that is the target or encloses it, the value of
  \<open>menuToggle.contains(e.target)\<close> and the value of \<open>navLinks.contains(e.target)\<close>.
\<close>

record click =
  on_link :: "nat option"
  on_toggle :: bool
  in_nav :: bool

text \<open>Lines 61 to 70: the click listener of the document.\<close>

definition document_click :: "click \<Rightarrow> handler" where
  "document_click e d =
     (if innerWidth d \<le> 768 then
        (case navLinks d of
           None \<Rightarrow> (Some TypeError, d)
         | Some p \<Rightarrow>
             (case menuToggle d of
                None \<Rightarrow> (Some TypeError, d)
              | Some t \<Rightarrow>
                  let isClickInsideNav = in_nav e; isClickOnToggle = on_toggle e in
                  if \<not> isClickInsideNav \<and> \<not> isClickOnToggle \<and> panel_active p
                  then closeMenu d else (None, d)))
      else (None, d))"

text \<open>Lines 246 to 250: the keydown listener of the document.\<close>

definition keydown :: "string \<Rightarrow> handler" where
  "keydown key d =
     (if key = ''Escape'' then
        (case navLinks d of
           None \<Rightarrow> (Some TypeError, d)
         | Some p \<Rightarrow> if panel_active p then closeMenu d else (None, d))
      else (None, d))"

section \<open>Header scroll effect and active navigation highlight\<close>

text \<open>\<open>function handleScroll()\<close>, lines 78 to 84.\<close>

definition handleScroll :: handler where
  "handleScroll d =
     (if scrollY d > 100 then
        (case header d of
           None \<Rightarrow> (Some TypeError, d)
         | Some h \<Rightarrow> (None, d\<lparr>header := Some (h\<lparr>scrolled := True\<rparr>)\<rparr>))
      else
        (case header d of
           None \<Rightarrow> (Some TypeError, d)
         | Some h \<Rightarrow> (None, d\<lparr>header := Some (h\<lparr>scrolled := False\<rparr>)\<rparr>)))"

text \<open>
  \<open>function updateActiveNav()\<close>, lines 136 to 154. \<open>mark_link\<close> is the body of the
  inner \<open>forEach\<close>, \<open>mark_links\<close> the inner loop, \<open>nav_loop\<close> the outer loop over
  the sections in document order.
\<close>

definition mark_link :: "string \<Rightarrow> link \<Rightarrow> link" where
  "mark_link sectionId l =
     (let l1 = l\<lparr>link_active := False\<rparr> in
      if href l1 = Some (CHR ''#'' # sectionId) then l1\<lparr>link_active := True\<rparr> else l1)"

definition mark_links :: "string \<Rightarrow> link list \<Rightarrow> link list" where
  "mark_links sectionId ls = map (mark_link sectionId) ls"

definition in_span :: "int \<Rightarrow> sect \<Rightarrow> bool" where
  "in_span scrollPos s =
     (let sectionTop = offsetTop s; sectionHeight = offsetHeight s in
      scrollPos \<ge> sectionTop \<and> scrollPos < sectionTop + sectionHeight)"

fun nav_loop :: "int \<Rightarrow> sect list \<Rightarrow> link list \<Rightarrow> link list" where
  "nav_loop scrollPos [] ls = ls"
| "nav_loop scrollPos (s # ss) ls =
     nav_loop scrollPos ss (if in_span scrollPos s then mark_links (sect_id s) ls else ls)"

definition updateActiveNav :: handler where
  "updateActiveNav d =
     (let scrollPos = scrollY d + 150 in
      (None, d\<lparr>navLinkItems := nav_loop scrollPos (sections d) (navLinkItems d)\<rparr>))"

text \<open>
  The two scroll listeners of the window, lines 88 to 96 and lines 157 to 163, and the
  callbacks they hand to \<open>requestAnimationFrame\<close>.
\<close>

definition scroll_listener1 :: handler where
  "scroll_listener1 d =
     (if \<not> isScrolling d
      then (None, d\<lparr>frame_queue := frame_queue d @ [HeaderFrame], isScrolling := True\<rparr>)
      else (None, d))"

definition scroll_listener2 :: handler where
  "scroll_listener2 d =
     (if \<not> isScrolling d
      then (None, d\<lparr>frame_queue := frame_queue d @ [NavFrame]\<rparr>)
      else (None, d))"

fun frame_callback :: "frame_cb \<Rightarrow> handler" where
  "frame_callback HeaderFrame d =
     (case handleScroll d of
        (Some e, d1) \<Rightarrow> (Some e, d1)
      | (None, d1) \<Rightarrow> (None, d1\<lparr>isScrolling := False\<rparr>))"
| "frame_callback NavFrame d = updateActiveNav d"

text \<open>
  An event runs the listeners registered for it in the order of their registration; an
  exception thrown by one listener is reported and the next listener still runs.
\<close>

fun dispatch :: "handler list \<Rightarrow> page \<Rightarrow> error list \<times> page" where
  "dispatch [] d = ([], d)"
| "dispatch (h # hs) d =
     (case h d of (e, d1) \<Rightarrow>
        (case dispatch hs d1 of (es, d2) \<Rightarrow>
           ((case e of None \<Rightarrow> es | Some x \<Rightarrow> x # es), d2)))"

definition scroll_event :: "int \<Rightarrow> page \<Rightarrow> error list \<times> page" where
  "scroll_event y d = dispatch [scroll_listener1, scroll_listener2] (d\<lparr>scrollY := y\<rparr>)"

text \<open>A rendered frame runs the callbacks requested since the last frame.\<close>

definition animation_frame :: "page \<Rightarrow> error list \<times> page" where
  "animation_frame d =
     dispatch (map frame_callback (frame_queue d)) (d\<lparr>frame_queue := []\<rparr>)"

section \<open>Smooth scroll\<close>

text \<open>
  \<open>document.getElementById\<close>: the first element in document order that carries the
  identifier; no element has the empty identifier.
\<close>

definition getElementById :: "page \<Rightarrow> string \<Rightarrow> int option" where
  "getElementById d i = (if i = [] then None else map_of (elements d) i)"

text \<open>Lines 105 to 128: the second click listener of every nav link.\<close>

definition smooth_scroll_click :: "link \<Rightarrow> handler" where
  "smooth_scroll_click l d =
     (case href l of
        None \<Rightarrow> (Some TypeError, d)
      | Some h \<Rightarrow>
          if take 1 h = ''#'' then
            (let targetId = drop 1 h in
             case getElementById d targetId of
               None \<Rightarrow> (None, d)
             | Some targetTop \<Rightarrow>
                 let d1 = d\<lparr>default_prevented := True\<rparr> in
                 (case header d1 of
                    None \<Rightarrow> (Some TypeError, d1)
                  | Some hel \<Rightarrow>
                      let headerHeight = hdr_offsetHeight hel;
                          targetPosition = targetTop - headerHeight
                      in (None, d1\<lparr>scroll_requests := scroll_requests d1 @ [targetPosition]\<rparr>)))
          else (None, d))"

text \<open>
  A click event: the listeners of the nav link (if the click is on one), the listener
  of the toggle (if the click is on it), then the listener of the document.
\<close>

definition link_listeners :: "click \<Rightarrow> page \<Rightarrow> handler list" where
  "link_listeners e d =
     (case on_link e of
        None \<Rightarrow> []
      | Some i \<Rightarrow>
          if i < length (navLinkItems d)
          then [link_close_click, smooth_scroll_click (navLinkItems d ! i)]
          else [])"

definition click_event :: "click \<Rightarrow> page \<Rightarrow> error list \<times> page" where
  "click_event e d =
     dispatch (link_listeners e d @ (if on_toggle e then [toggle_click] else [])
                 @ [document_click e])
       (d\<lparr>default_prevented := False\<rparr>)"

section \<open>Window resize\<close>

text \<open>
  The timer queue of the window. The only callback the script ever schedules is the
  one of line 212, so a pending timer is its handle and its due time.
\<close>

definition clearTimeout :: "nat option \<Rightarrow> page \<Rightarrow> page" where
  "clearTimeout t d =
     (case t of
        None \<Rightarrow> d
      | Some h \<Rightarrow> d\<lparr>timers := filter (\<lambda>(h', due). h' \<noteq> h) (timers d)\<rparr>)"

definition setTimeout :: "nat \<Rightarrow> page \<Rightarrow> nat \<times> page"  where
  "setTimeout delay d =
     (next_handle d,
      d\<lparr>timers := timers d @ [(next_handle d, now d + delay)],
        next_handle := Suc (next_handle d)\<rparr>)"

text \<open>
  Lines 204 to 215: the resize listener of the window. Its first statement
  (lines 206 to 208) closes the menu, its second and third (lines 211 to 214) replace
  the timer; an exception in the first leaves the other two unexecuted.
\<close>

definition resize_close :: handler where
  "resize_close d =
     (if innerWidth d > 768 then
        (case navLinks d of
           None \<Rightarrow> (Some TypeError, d)
         | Some p \<Rightarrow> if panel_active p then closeMenu d else (None, d))
      else (None, d))"

definition resize_debounce :: handler where
  "resize_debounce d =
     (let d1 = clearTimeout (resizeTimer d) d in
      case setTimeout 250 d1 of (h, d2) \<Rightarrow> (None, d2\<lparr>resizeTimer := Some h\<rparr>))"

definition resize_listener :: handler where
  "resize_listener d =
     (case resize_close d of
        (Some e, d1) \<Rightarrow> (Some e, d1)
      | (None, d1) \<Rightarrow> resize_debounce d1)"

definition resize_event :: "int \<Rightarrow> handler" where
  "resize_event w d = resize_listener (d\<lparr>innerWidth := w\<rparr>)"

text \<open>
  One millisecond passes: the timers that are due run their callback (the log line of
  line 213) and leave the queue.
\<close>

definition tick :: "page \<Rightarrow> page" where
  "tick d =
     (let t = Suc (now d);
          due = filter (\<lambda>(h, due). due \<le> t) (timers d)
      in d\<lparr>now := t,
           timers := filter (\<lambda>(h, due). \<not> due \<le> t) (timers d),
           resize_log := resize_log d @ map (\<lambda>_. t) due\<rparr>)"

datatype action = Resize int | Tick

fun step :: "action \<Rightarrow> page \<Rightarrow> page" where
  "step (Resize w) d = snd (resize_event w d)"
| "step Tick d = tick d"

fun run :: "action list \<Rightarrow> page \<Rightarrow> page" where
  "run [] d = d"
| "run (a # as) d = run as (step a d)"

section \<open>Properties of the menu state\<close>

text \<open>
  The observable menu state: the active class of the panel and of the toggle, the
  \<open>aria-expanded\<close> attribute of the toggle and the overflow style of the body.
\<close>

definition menu_state ::
    "page \<Rightarrow> bool option \<times> bool option \<times> string option option \<times> string" where
  "menu_state d =
     (map_option panel_active (navLinks d), map_option toggle_active (menuToggle d),
      map_option aria_expanded (menuToggle d), body_overflow d)"

text \<open>
  The menu-open flag is the active class of the panel (the test the script itself
  uses); its side effects are \<open>aria-expanded="true"\<close> on the toggle and the scroll
  lock \<open>overflow: hidden\<close> on the body.
\<close>

definition menu_open :: "page \<Rightarrow> bool" where
  "menu_open d = (case navLinks d of None \<Rightarrow> False | Some p \<Rightarrow> panel_active p)"

definition aria_true :: "page \<Rightarrow> bool" where
  "aria_true d =
     (case menuToggle d of None \<Rightarrow> False | Some t \<Rightarrow> aria_expanded t = Some ''true'')"

definition scroll_locked :: "page \<Rightarrow> bool" where
  "scroll_locked d = (body_overflow d = ''hidden'')"

definition in_sync :: "page \<Rightarrow> bool" where
  "in_sync d =
     ((menu_open d \<longrightarrow> aria_true d \<and> scroll_locked d) \<and>
      (\<not> menu_open d \<longrightarrow> \<not> aria_true d \<and> \<not> scroll_locked d))"

text \<open>
  The closed state, the one \<open>closeMenu\<close> forces: neither element carries the active
  class, \<open>aria-expanded\<close> is \<open>"false"\<close> and the body has no overflow style.
\<close>

definition menu_closed :: "page \<Rightarrow> bool" where
  "menu_closed d =
     (case navLinks d of
        None \<Rightarrow> False
      | Some p \<Rightarrow>
          (case menuToggle d of
             None \<Rightarrow> False
           | Some t \<Rightarrow>
               \<not> panel_active p \<and> \<not> toggle_active t \<and>
               aria_expanded t = Some ''false'' \<and> body_overflow d = []))"

text \<open>The operations that change the menu, each as the listener that performs it.\<close>

datatype operation =
    OpToggle | OpClose | OpLinkClick | OpOutsideClick click | OpEscape string | OpResize int

fun perform :: "operation \<Rightarrow> handler" where
  "perform OpToggle d = toggle_click d"
| "perform OpClose d = closeMenu d"
| "perform OpLinkClick d = link_close_click d"
| "perform (OpOutsideClick e) d = document_click e d"
| "perform (OpEscape key) d = keydown key d"
| "perform (OpResize w) d = resize_event w d"

section \<open>Example pages\<close>

definition page0 :: page where
  "page0 =
     \<lparr>menuToggle = Some \<lparr>toggle_active = False, aria_expanded = Some ''false''\<rparr>,
      navLinks = Some \<lparr>panel_active = False\<rparr>,
      header = Some \<lparr>scrolled = False, hdr_offsetHeight = 80\<rparr>,
      navLinkItems =
        [\<lparr>href = Some ''#home'', link_active = False\<rparr>,
         \<lparr>href = Some ''#about'', link_active = False\<rparr>,
         \<lparr>href = Some ''#contact'', link_active = False\<rparr>],
      sections =
        [\<lparr>sect_id = ''home'', offsetTop = 0, offsetHeight = 600\<rparr>,
         \<lparr>sect_id = ''about'', offsetTop = 600, offsetHeight = 800\<rparr>],
      elements = [(''header'', 0), (''home'', 0), (''about'', 600)],
      body_overflow = [],
      innerWidth = 375,
      scrollY = 0,
      isScrolling = False,
      frame_queue = [],
      resizeTimer = None,
      timers = [],
      next_handle = 1,
      now = 0,
      resize_log = [],
      default_prevented = False,
      scroll_requests = []\<rparr>"

text \<open>The same page with the menu open.\<close>

definition page_open :: page where
  "page_open =
     page0\<lparr>menuToggle := Some \<lparr>toggle_active = True, aria_expanded = Some ''true''\<rparr>,
           navLinks := Some \<lparr>panel_active = True\<rparr>,
           body_overflow := ''hidden''\<rparr>"

text \<open>The same page with a toggle that carries no \<open>aria-expanded\<close> attribute.\<close>

definition page_no_aria :: page where
  "page_no_aria = page0\<lparr>menuToggle := Some \<lparr>toggle_active = False, aria_expanded = None\<rparr>\<rparr>"

text \<open>The same page on a narrow viewport with the nav-links panel missing.\<close>

definition page_no_panel :: page where
  "page_no_panel = page0\<lparr>navLinks := None\<rparr>"

text \<open>A click on something that is neither a nav link, nor the toggle, nor in the panel.\<close>

definition click_elsewhere :: click where
  "click_elsewhere = \<lparr>on_link = None, on_toggle = False, in_nav = False\<rparr>"

section \<open>Properties of the active navigation highlight\<close>

text \<open>
  Two sections do not overlap when no position lies in the vertical span of both; a
  span of height zero or less is empty.
\<close>

definition disjoint_spans :: "sect \<Rightarrow> sect \<Rightarrow> bool" where
  "disjoint_spans a b =
     (offsetHeight a \<le> 0 \<or> offsetHeight b \<le> 0 \<or>
      offsetTop a + offsetHeight a \<le> offsetTop b \<or>
      offsetTop b + offsetHeight b \<le> offsetTop a)"

fun non_overlapping :: "sect list \<Rightarrow> bool" where
  "non_overlapping [] = True"
| "non_overlapping (s # ss) = (list_all (disjoint_spans s) ss \<and> non_overlapping ss)"

definition names_section :: "string \<Rightarrow> link \<Rightarrow> bool" where
  "names_section sectionId l = (href l = Some (CHR ''#'' # sectionId))"

definition active_count :: "link list \<Rightarrow> nat" where
  "active_count ls = length (filter link_active ls)"

text \<open>The sections whose span contains the look-ahead position, in document order.\<close>

definition matching :: "page \<Rightarrow> sect list" where
  "matching d = filter (in_span (scrollY d + 150)) (sections d)"

text \<open>
  \<open>page0\<close> scrolled below its last section, with the link of that section still
  marked from an earlier run.
\<close>

definition page_below :: page where
  "page_below =
     page0\<lparr>scrollY := 1300,
           navLinkItems :=
             [\<lparr>href = Some ''#home'', link_active = False\<rparr>,
              \<lparr>href = Some ''#about'', link_active = True\<rparr>,
              \<lparr>href = Some ''#contact'', link_active = False\<rparr>]\<rparr>"

text \<open>\<open>page0\<close> with two nav links to the same section.\<close>

definition page_two_home :: page where
  "page_two_home =
     page0\<lparr>navLinkItems :=
             [\<lparr>href = Some ''#home'', link_active = False\<rparr>,
              \<lparr>href = Some ''#home'', link_active = False\<rparr>,
              \<lparr>href = Some ''#about'', link_active = False\<rparr>]\<rparr>"

text \<open>\<open>page0\<close> with a third section that lies inside the span of the first.\<close>

definition page_overlap :: page where
  "page_overlap =
     page0\<lparr>sections :=
             [\<lparr>sect_id = ''home'', offsetTop = 0, offsetHeight = 600\<rparr>,
              \<lparr>sect_id = ''contact'', offsetTop = 100, offsetHeight = 200\<rparr>,
              \<lparr>sect_id = ''about'', offsetTop = 600, offsetHeight = 800\<rparr>]\<rparr>"

section \<open>Bursts of resize events\<close>

text \<open>
  The timers that are pending were all scheduled by the resize listener: there is at
  most one, and \<open>resizeTimer\<close> holds its handle.
\<close>

definition timer_inv :: "page \<Rightarrow> bool" where
  "timer_inv d =
     (length (timers d) \<le> 1 \<and> list_all (\<lambda>(h, due). resizeTimer d = Some h) (timers d))"

text \<open>
  A burst: a resize event (to width \<open>w0\<close>), then for every \<open>(g, w)\<close> of \<open>rest\<close>
  a gap of \<open>g\<close> milliseconds followed by a resize event to width \<open>w\<close>, then 250
  milliseconds of quiet.
\<close>

definition burst_tail :: "(nat \<times> int) list \<Rightarrow> action list" where
  "burst_tail rest =
     concat (map (\<lambda>(g, w). replicate g Tick @ [Resize w]) rest) @ replicate 250 Tick"

definition burst :: "int \<Rightarrow> (nat \<times> int) list \<Rightarrow> action list" where
  "burst w0 rest = Resize w0 # burst_tail rest"

section \<open>Parts of the page that groups of listeners leave alone\<close>

text \<open>What the menu operations never touch of the state that clicks read and write.\<close>

definition click_frame ::
    "page \<Rightarrow> bool \<times> int list \<times> link list \<times> (string \<times> int) list \<times> hdr option \<times> int" where
  "click_frame d =
     (default_prevented d, scroll_requests d, navLinkItems d, elements d, header d, innerWidth d)"

text \<open>The timer queue, the clock and the log.\<close>

definition timer_view :: "page \<Rightarrow> (nat \<times> nat) list \<times> nat option \<times> nat \<times> nat \<times> nat list" where
  "timer_view d = (timers d, resizeTimer d, next_handle d, now d, resize_log d)"

text \<open>The panel and the toggle both exist.\<close>

definition menu_present :: "page \<Rightarrow> bool" where
  "menu_present d = (navLinks d \<noteq> None \<and> menuToggle d \<noteq> None)"

section \<open>Verified properties: the menu\<close>

lemmas sync_defs = in_sync_def menu_open_def aria_true_def scroll_locked_def

lemma toggleMenu_in_sync:
  "menuToggle d \<noteq> None \<Longrightarrow> in_sync d \<Longrightarrow> in_sync (snd (toggleMenu d))"
  by (auto simp: toggleMenu_def sync_defs bool_str_def Let_def split: option.splits)

lemma closeMenu_in_sync: "in_sync d \<Longrightarrow> in_sync (snd (closeMenu d))"
  by (auto simp: closeMenu_def sync_defs Let_def split: option.splits)

lemma toggle_click_in_sync: "in_sync d \<Longrightarrow> in_sync (snd (toggle_click d))"
  by (cases "menuToggle d") (simp_all add: toggle_click_def toggleMenu_in_sync)

lemma link_close_click_in_sync: "in_sync d \<Longrightarrow> in_sync (snd (link_close_click d))"
  by (simp add: link_close_click_def closeMenu_in_sync)

lemma document_click_in_sync: "in_sync d \<Longrightarrow> in_sync (snd (document_click e d))"
  by (simp add: document_click_def closeMenu_in_sync Let_def split: option.splits)

lemma keydown_in_sync: "in_sync d \<Longrightarrow> in_sync (snd (keydown k d))"
  by (simp add: keydown_def closeMenu_in_sync split: option.splits)

lemma in_sync_menu_state: "menu_state d' = menu_state d \<Longrightarrow> in_sync d' = in_sync d"
  by (cases "navLinks d"; cases "navLinks d'"; cases "menuToggle d"; cases "menuToggle d'")
     (auto simp: menu_state_def sync_defs)

lemma menu_state_innerWidth: "menu_state (d\<lparr>innerWidth := w\<rparr>) = menu_state d"
  by (simp add: menu_state_def)

lemma resize_close_in_sync: "in_sync d \<Longrightarrow> in_sync (snd (resize_close d))"
  by (simp add: resize_close_def closeMenu_in_sync split: option.splits)

lemma resize_debounce_menu_state: "menu_state (snd (resize_debounce d)) = menu_state d"
  by (simp add: resize_debounce_def setTimeout_def clearTimeout_def menu_state_def Let_def
      split: option.splits)

lemma resize_listener_in_sync: "in_sync d \<Longrightarrow> in_sync (snd (resize_listener d))"
proof -
  assume s: "in_sync d"
  obtain e d1 where ed: "resize_close d = (e, d1)"
    by (cases "resize_close d")
  have r: "in_sync d1"
    using resize_close_in_sync [OF s] ed by simp
  show ?thesis
  proof (cases e)
    case None
    have "in_sync (snd (resize_debounce d1))"
      using r in_sync_menu_state [OF resize_debounce_menu_state] by simp
    then show ?thesis
      using None ed by (simp add: resize_listener_def)
  next
    case (Some x)
    then show ?thesis
      using r ed by (simp add: resize_listener_def)
  qed
qed

lemma resize_event_in_sync: "in_sync d \<Longrightarrow> in_sync (snd (resize_event w d))"
  unfolding resize_event_def
  by (rule resize_listener_in_sync) (simp add: in_sync_menu_state [OF menu_state_innerWidth])

text \<open>
  C4, as amended. On a page where the panel and the toggle exist, two toggles in a row
  raise no error, restore the active class of both elements and leave
  \<open>aria-expanded\<close> and the body overflow at the values that the active class of the
  panel determines (\<open>"true"\<close> and \<open>hidden\<close> when it is set, \<open>"false"\<close> and the empty
  style otherwise). So when these two already had those values before the first
  toggle, the whole page is back in its original state.
\<close>

theorem toggleMenu_twice:
  assumes "navLinks d = Some p" and "menuToggle d = Some t"
  shows "fst (toggleMenu d) = None \<and>
         toggleMenu (snd (toggleMenu d)) =
           (None, d\<lparr>menuToggle := Some (t\<lparr>aria_expanded := Some (bool_str (panel_active p))\<rparr>),
                    body_overflow := (if panel_active p then ''hidden'' else '''')\<rparr>) \<and>
         (aria_expanded t = Some (bool_str (panel_active p)) \<and>
          body_overflow d = (if panel_active p then ''hidden'' else '''')
          \<longrightarrow> toggleMenu (snd (toggleMenu d)) = (None, d))"
proof -
  have 1: "toggleMenu d = (None, d\<lparr>navLinks := Some (p\<lparr>panel_active := \<not> panel_active p\<rparr>),
      menuToggle := Some (t\<lparr>toggle_active := \<not> toggle_active t,
                             aria_expanded := Some (bool_str (\<not> panel_active p))\<rparr>),
      body_overflow := (if \<not> panel_active p then ''hidden'' else '''')\<rparr>)"
    using assms by (simp add: toggleMenu_def Let_def)
  have 2: "toggleMenu (snd (toggleMenu d)) =
           (None, d\<lparr>menuToggle := Some (t\<lparr>aria_expanded := Some (bool_str (panel_active p))\<rparr>),
                    body_overflow := (if panel_active p then ''hidden'' else '''')\<rparr>)"
    unfolding 1 using assms by (simp add: toggleMenu_def Let_def)
  have 3: "toggleMenu (snd (toggleMenu d)) = (None, d)"
    if "aria_expanded t = Some (bool_str (panel_active p))"
       "body_overflow d = (if panel_active p then ''hidden'' else '''')"
    unfolding 2 using assms that by simp
  show ?thesis using 1 2 3 by simp
qed

theorem toggleMenu_twice_witness:
  "navLinks page_open = Some \<lparr>panel_active = True\<rparr> \<and>
   menuToggle page_open = Some \<lparr>toggle_active = True, aria_expanded = Some ''true''\<rparr> \<and>
   fst (toggleMenu page_open) = None \<and>
   toggleMenu (snd (toggleMenu page_open)) = (None, page_open)"
  using toggleMenu_twice [of page_open "\<lparr>panel_active = True\<rparr>"
      "\<lparr>toggle_active = True, aria_expanded = Some ''true''\<rparr>"]
  by (simp add: page_open_def page0_def bool_str_def)

text \<open>
  C4 as stated fails on a page whose toggle carries no \<open>aria-expanded\<close> attribute:
  after two toggles the attribute is \<open>"false"\<close>.
\<close>

theorem toggleMenu_twice_counterexample:
  "menu_state (snd (toggleMenu (snd (toggleMenu page_no_aria)))) \<noteq> menu_state page_no_aria"
  by (simp add: menu_state_def toggleMenu_def page_no_aria_def page0_def bool_str_def)

text \<open>
  C5. Every operation on the menu keeps the menu-open flag and its side effects in
  sync: if, before the operation, an open menu has \<open>aria-expanded="true"\<close> and the
  scroll lock, and a closed menu has neither, then the same holds of the page the
  operation leaves, also when the operation stops with an error.
\<close>

theorem perform_in_sync: "in_sync d \<Longrightarrow> in_sync (snd (perform op d))"
  by (cases op) (simp_all add: toggle_click_in_sync closeMenu_in_sync link_close_click_in_sync
      document_click_in_sync keydown_in_sync resize_event_in_sync)

theorem perform_in_sync_witness:
  "in_sync page_open \<and> in_sync (snd (perform (OpEscape ''Escape'') page_open)) \<and>
   \<not> menu_open (snd (perform (OpEscape ''Escape'') page_open))"
proof -
  have h: "in_sync page_open"
    by (simp add: sync_defs page_open_def page0_def)
  have "\<not> menu_open (snd (perform (OpEscape ''Escape'') page_open))"
    by (simp add: menu_open_def keydown_def closeMenu_def page_open_def page0_def)
  then show ?thesis
    using h perform_in_sync [OF h, of "OpEscape ''Escape''"] by simp
qed

text \<open>
  C8, as amended. \<open>closeMenu\<close> is idempotent: on every page a second call returns
  what the first returned. On a page where the panel and the toggle exist and the menu
  is already closed (the panel lacks the active class), \<open>closeMenu\<close> raises no
  error, leaves the panel as it is, takes the active class off the toggle, sets
  \<open>aria-expanded\<close> to \<open>"false"\<close> and empties the body overflow; so it leaves the
  observable menu state unchanged exactly when the toggle already lacked the active
  class, \<open>aria-expanded\<close> already was \<open>"false"\<close> and the body overflow already was
  empty. Whenever it raises no error it leaves the menu in that closed state, on which
  a further call changes nothing.
\<close>

theorem closeMenu_idempotent:
  "closeMenu (snd (closeMenu d)) = closeMenu d \<and>
   (\<forall>p t. navLinks d = Some p \<and> menuToggle d = Some t \<and> \<not> panel_active p \<longrightarrow>
      closeMenu d =
        (None, d\<lparr>menuToggle := Some (t\<lparr>toggle_active := False, aria_expanded := Some ''false''\<rparr>),
                 body_overflow := ''''\<rparr>) \<and>
      (menu_state (snd (closeMenu d)) = menu_state d) =
        (\<not> toggle_active t \<and> aria_expanded t = Some ''false'' \<and> body_overflow d = '''')) \<and>
   (menu_closed d \<longrightarrow> closeMenu d = (None, d)) \<and>
   (fst (closeMenu d) = None \<longrightarrow> menu_closed (snd (closeMenu d)))"
proof -
  have 1: "closeMenu (snd (closeMenu d)) = closeMenu d"
    by (auto simp: closeMenu_def Let_def split: option.splits)
  have 2: "closeMenu d =
        (None, d\<lparr>menuToggle := Some (t\<lparr>toggle_active := False, aria_expanded := Some ''false''\<rparr>),
                 body_overflow := ''''\<rparr>)"
    if "navLinks d = Some p" "menuToggle d = Some t" "\<not> panel_active p" for p t
    using that by (simp add: closeMenu_def Let_def)
  have 3: "(menu_state (snd (closeMenu d)) = menu_state d) =
        (\<not> toggle_active t \<and> aria_expanded t = Some ''false'' \<and> body_overflow d = '''')"
    if "navLinks d = Some p" "menuToggle d = Some t" "\<not> panel_active p" for p t
    unfolding 2 [OF that] using that by (auto simp: menu_state_def)
  have 4: "menu_closed d \<longrightarrow> closeMenu d = (None, d)"
    by (auto simp: closeMenu_def menu_closed_def Let_def split: option.splits)
  have 5: "fst (closeMenu d) = None \<longrightarrow> menu_closed (snd (closeMenu d))"
    by (auto simp: closeMenu_def menu_closed_def Let_def split: option.splits)
  show ?thesis
    using 1 2 3 4 5 by simp
qed

theorem closeMenu_idempotent_witness:
  "navLinks page_no_aria = Some \<lparr>panel_active = False\<rparr> \<and>
   menuToggle page_no_aria = Some \<lparr>toggle_active = False, aria_expanded = None\<rparr> \<and>
   closeMenu page_no_aria = (None, page0) \<and>
   menu_closed page0 \<and> closeMenu page0 = (None, page0) \<and>
   fst (closeMenu page_open) = None \<and> menu_closed (snd (closeMenu page_open)) \<and>
   closeMenu (snd (closeMenu page_open)) = closeMenu page_open"
proof -
  have h: "menu_closed page0"
    by (simp add: menu_closed_def page0_def)
  have g: "fst (closeMenu page_open) = None"
    by (simp add: closeMenu_def page_open_def page0_def)
  have n: "navLinks page_no_aria = Some \<lparr>panel_active = False\<rparr>"
    "menuToggle page_no_aria = Some \<lparr>toggle_active = False, aria_expanded = None\<rparr>"
    by (simp_all add: page_no_aria_def page0_def)
  have e: "page_no_aria\<lparr>menuToggle :=
        Some (\<lparr>toggle_active = False, aria_expanded = None\<rparr>
                \<lparr>toggle_active := False, aria_expanded := Some ''false''\<rparr>),
        body_overflow := ''''\<rparr> = page0"
    by (simp add: page_no_aria_def page0_def)
  show ?thesis
    using h g n e closeMenu_idempotent [of page0] closeMenu_idempotent [of page_open]
      closeMenu_idempotent [of page_no_aria]
    by simp
qed

text \<open>
  C8 as stated fails on a page whose toggle carries no \<open>aria-expanded\<close> attribute:
  the menu is closed, and in sync with its side effects, yet \<open>closeMenu\<close> changes the
  observable menu state, since it sets the attribute to \<open>"false"\<close>.
\<close>

theorem closeMenu_closed_counterexample:
  "\<not> menu_open page_no_aria \<and> in_sync page_no_aria \<and>
   menu_state (snd (closeMenu page_no_aria)) \<noteq> menu_state page_no_aria"
  by (simp add: menu_open_def in_sync_def aria_true_def scroll_locked_def menu_state_def
      closeMenu_def page_no_aria_def page0_def)

section \<open>Verified properties: the active navigation highlight\<close>

lemma mark_link_twice: "mark_link a (mark_link b l) = mark_link a l"
  by (simp add: mark_link_def Let_def)

lemma mark_links_twice: "mark_links a (mark_links b ls) = mark_links a ls"
  by (simp add: mark_links_def mark_link_twice)

text \<open>The outer loop ends with the marks of the last section that matched, if any.\<close>

lemma nav_loop_last:
  "nav_loop pos ss ls =
     (case filter (in_span pos) ss of
        [] \<Rightarrow> ls
      | m # ms \<Rightarrow> mark_links (sect_id (last (m # ms))) ls)"
proof (induction ss arbitrary: ls)
  case Nil
  then show ?case by simp
next
  case (Cons s ss)
  show ?case
  proof (cases "in_span pos s")
    case True
    then show ?thesis
      using Cons.IH [of "mark_links (sect_id s) ls"]
      by (simp add: mark_links_twice split: list.splits)
  next
    case False
    then show ?thesis
      using Cons.IH [of ls] by simp
  qed
qed

lemma updateActiveNav_matching:
  "updateActiveNav d =
     (None, d\<lparr>navLinkItems :=
        (case matching d of
           [] \<Rightarrow> navLinkItems d
         | m # ms \<Rightarrow> mark_links (sect_id (last (m # ms))) (navLinkItems d))\<rparr>)"
  by (simp add: updateActiveNav_def matching_def nav_loop_last Let_def)

lemma link_active_mark_links:
  "map link_active (mark_links a ls) = map (names_section a) ls"
  by (simp add: mark_links_def mark_link_def names_section_def Let_def)

lemma href_mark_links: "map href (mark_links a ls) = map href ls"
  by (simp add: mark_links_def mark_link_def Let_def)

lemma active_count_mark_links:
  "active_count (mark_links a ls) = length (filter (names_section a) ls)"
proof -
  have "length (filter link_active (mark_links a ls)) =
        length (filter (\<lambda>b. b) (map link_active (mark_links a ls)))"
    by (simp add: filter_map comp_def)
  also have "\<dots> = length (filter (\<lambda>b. b) (map (names_section a) ls))"
    by (simp only: link_active_mark_links)
  also have "\<dots> = length (filter (names_section a) ls)"
    by (simp add: filter_map comp_def)
  finally show ?thesis
    by (simp add: active_count_def)
qed

lemma distinct_href_names:
  "distinct (map href ls) \<Longrightarrow> length (filter (names_section a) ls) \<le> 1"
proof (induction ls)
  case Nil
  then show ?case by simp
next
  case (Cons l ls)
  show ?case
  proof (cases "names_section a l")
    case True
    then have "\<forall>k \<in> set ls. \<not> names_section a k"
      using Cons.prems by (force simp: names_section_def)
    then have "filter (names_section a) ls = []"
      by (simp add: filter_empty_conv)
    then show ?thesis using True by simp
  next
    case False
    then show ?thesis using Cons by simp
  qed
qed

lemma disjoint_spans_not_both:
  "disjoint_spans a b \<Longrightarrow> in_span pos a \<Longrightarrow> \<not> in_span pos b"
  by (auto simp: disjoint_spans_def in_span_def Let_def)

lemma non_overlapping_single:
  "non_overlapping ss \<Longrightarrow> s \<in> set ss \<Longrightarrow> in_span pos s \<Longrightarrow> filter (in_span pos) ss = [s]"
proof (induction ss)
  case Nil
  then show ?case by simp
next
  case (Cons t ss)
  have dis: "\<forall>u \<in> set ss. disjoint_spans t u"
    using Cons.prems(1) by (simp add: list_all_iff)
  show ?case
  proof (cases "in_span pos t")
    case True
    then have none: "\<forall>u \<in> set ss. \<not> in_span pos u"
      using dis disjoint_spans_not_both by blast
    then have "s = t"
      using Cons.prems(2,3) by auto
    moreover have "filter (in_span pos) ss = []"
      using none by (simp add: filter_empty_conv)
    ultimately show ?thesis
      using True by simp
  next
    case False
    then have "s \<in> set ss"
      using Cons.prems(2,3) by auto
    then show ?thesis
      using Cons False by simp
  qed
qed

text \<open>
  C1, as amended. Let the sections be pairwise non-overlapping. If the span of a
  section contains \<open>scrollY + 150\<close>, one run of \<open>updateActiveNav\<close> raises no error
  and marks active exactly the nav links whose \<open>href\<close> is \<open>#\<close> followed by the
  identifier of that section, clearing all others; the number of active links is then
  the number of links with that \<open>href\<close>, hence at most one when the links have
  pairwise distinct \<open>href\<close>s. If no span contains \<open>scrollY + 150\<close>, the run changes
  nothing: the links keep the marks they had.
\<close>

theorem updateActiveNav_non_overlapping:
  assumes "non_overlapping (sections d)"
  shows "(\<forall>s \<in> set (sections d). in_span (scrollY d + 150) s \<longrightarrow>
            fst (updateActiveNav d) = None \<and>
            map link_active (navLinkItems (snd (updateActiveNav d))) =
              map (names_section (sect_id s)) (navLinkItems d) \<and>
            map href (navLinkItems (snd (updateActiveNav d))) = map href (navLinkItems d) \<and>
            active_count (navLinkItems (snd (updateActiveNav d))) =
              length (filter (names_section (sect_id s)) (navLinkItems d)) \<and>
            (distinct (map href (navLinkItems d)) \<longrightarrow>
               active_count (navLinkItems (snd (updateActiveNav d))) \<le> 1)) \<and>
         (matching d = [] \<longrightarrow> updateActiveNav d = (None, d))"
proof -
  have hit: "navLinkItems (snd (updateActiveNav d)) = mark_links (sect_id s) (navLinkItems d)"
    if "s \<in> set (sections d)" "in_span (scrollY d + 150) s" for s
  proof -
    have "matching d = [s]"
      using non_overlapping_single [OF assms that] by (simp add: matching_def)
    then show ?thesis
      by (simp add: updateActiveNav_matching)
  qed
  have miss: "updateActiveNav d = (None, d)" if "matching d = []"
    using that by (simp add: updateActiveNav_matching)
  have ok: "fst (updateActiveNav d) = None"
    by (simp add: updateActiveNav_matching)
  have one: "length (filter (names_section a) (navLinkItems d)) \<le> 1"
    if "distinct (map href (navLinkItems d))" for a
    using that by (rule distinct_href_names)
  show ?thesis
    using hit miss ok one
    by (simp add: link_active_mark_links href_mark_links active_count_mark_links)
qed

theorem updateActiveNav_non_overlapping_witness:
  "non_overlapping (sections (page0\<lparr>scrollY := 700\<rparr>)) \<and>
   in_span (scrollY (page0\<lparr>scrollY := 700\<rparr>) + 150)
     \<lparr>sect_id = ''about'', offsetTop = 600, offsetHeight = 800\<rparr> \<and>
   map link_active (navLinkItems (snd (updateActiveNav (page0\<lparr>scrollY := 700\<rparr>)))) =
     [False, True, False] \<and>
   active_count (navLinkItems (snd (updateActiveNav (page0\<lparr>scrollY := 700\<rparr>)))) = 1 \<and>
   matching page_below = [] \<and> non_overlapping (sections page_below) \<and>
   updateActiveNav page_below = (None, page_below)"
proof -
  have h1: "non_overlapping (sections (page0\<lparr>scrollY := 700\<rparr>))"
    by (simp add: page0_def disjoint_spans_def)
  have h2: "non_overlapping (sections page_below)"
    by (simp add: page_below_def page0_def disjoint_spans_def)
  have h3: "matching page_below = []"
    by (simp add: matching_def page_below_def page0_def in_span_def)
  show ?thesis
    using h1 h2 h3 updateActiveNav_non_overlapping [OF h1] updateActiveNav_non_overlapping [OF h2]
    by (simp add: page0_def in_span_def names_section_def)
qed

text \<open>
  C1 as stated fails twice. Below the last section no span contains \<open>scrollY + 150\<close>,
  and the link marked by an earlier run stays active instead of being cleared; and
  with two nav links to the matching section the run marks both.
\<close>

theorem updateActiveNav_counterexample:
  "non_overlapping (sections page_below) \<and> matching page_below = [] \<and>
   active_count (navLinkItems (snd (updateActiveNav page_below))) = 1 \<and>
   non_overlapping (sections page_two_home) \<and>
   map sect_id (matching page_two_home) = [''home''] \<and>
   active_count (navLinkItems (snd (updateActiveNav page_two_home))) = 2"
  by (simp add: updateActiveNav_def matching_def active_count_def page_below_def
      page_two_home_def page0_def in_span_def disjoint_spans_def mark_links_def mark_link_def)

text \<open>
  C9. Whenever the span of some section contains \<open>scrollY + 150\<close>, and so also when
  the spans of two or more sections do, one run of \<open>updateActiveNav\<close> leaves active
  exactly the links whose \<open>href\<close> names the last matching section in document order.
\<close>

theorem updateActiveNav_last_match:
  assumes "matching d \<noteq> []"
  shows "fst (updateActiveNav d) = None \<and>
         map link_active (navLinkItems (snd (updateActiveNav d))) =
           map (names_section (sect_id (last (matching d)))) (navLinkItems d) \<and>
         map href (navLinkItems (snd (updateActiveNav d))) = map href (navLinkItems d)"
proof -
  obtain m ms where "matching d = m # ms"
    using assms by (cases "matching d") auto
  then show ?thesis
    by (simp add: updateActiveNav_matching link_active_mark_links href_mark_links)
qed

theorem updateActiveNav_last_match_witness:
  "map sect_id (matching page_overlap) = [''home'', ''contact''] \<and>
   map link_active (navLinkItems (snd (updateActiveNav page_overlap))) = [False, False, True] \<and>
   map href (navLinkItems (snd (updateActiveNav page_overlap))) =
     [Some ''#home'', Some ''#about'', Some ''#contact'']"
proof -
  have m: "matching page_overlap =
      [\<lparr>sect_id = ''home'', offsetTop = 0, offsetHeight = 600\<rparr>,
       \<lparr>sect_id = ''contact'', offsetTop = 100, offsetHeight = 200\<rparr>]"
    by (simp add: matching_def page_overlap_def page0_def in_span_def)
  then have h: "matching page_overlap \<noteq> []"
    by simp
  show ?thesis
    using updateActiveNav_last_match [OF h] m
    by (simp add: page_overlap_def page0_def names_section_def)
qed

section \<open>Verified properties: scroll events and frames\<close>

lemma scroll_event_result:
  "scroll_event y d =
     ([], if isScrolling d then d\<lparr>scrollY := y\<rparr>
          else d\<lparr>scrollY := y, frame_queue := frame_queue d @ [HeaderFrame],
                 isScrolling := True\<rparr>)"
  by (simp add: scroll_event_def scroll_listener1_def scroll_listener2_def)

text \<open>
  C2 fails on the code. The second scroll listener tests the flag that the first one
  has just set, so no scroll event ever requests a frame for \<open>updateActiveNav\<close>: a
  scroll event adds at most the header callback to the frame queue. On \<open>page0\<close>, a
  scroll to 700 followed by a frame updates the header and leaves every nav link
  unmarked, although a run of \<open>updateActiveNav\<close> would mark the second link.
\<close>

theorem scroll_event_never_requests_nav:
  "frame_queue (snd (scroll_event y d)) =
     frame_queue d @ (if isScrolling d then [] else [HeaderFrame]) \<and>
   frame_queue (snd (scroll_event 700 page0)) = [HeaderFrame] \<and>
   animation_frame (snd (scroll_event 700 page0)) =
     ([], page0\<lparr>scrollY := 700, header := Some \<lparr>scrolled = True, hdr_offsetHeight = 80\<rparr>\<rparr>) \<and>
   map link_active (navLinkItems (snd (animation_frame (snd (scroll_event 700 page0))))) =
     [False, False, False] \<and>
   map link_active (navLinkItems (snd (updateActiveNav (page0\<lparr>scrollY := 700\<rparr>)))) =
     [False, True, False]"
proof -
  have 1: "frame_queue (snd (scroll_event y d)) =
     frame_queue d @ (if isScrolling d then [] else [HeaderFrame])"
    by (simp add: scroll_event_result)
  have 2: "snd (scroll_event 700 page0) =
      page0\<lparr>scrollY := 700, frame_queue := [HeaderFrame], isScrolling := True\<rparr>"
    by (simp add: scroll_event_result page0_def)
  have 3: "animation_frame (snd (scroll_event 700 page0)) =
     ([], page0\<lparr>scrollY := 700, header := Some \<lparr>scrolled = True, hdr_offsetHeight = 80\<rparr>\<rparr>)"
    unfolding 2 by (simp add: animation_frame_def handleScroll_def page0_def)
  have 4: "map link_active (navLinkItems (snd (updateActiveNav (page0\<lparr>scrollY := 700\<rparr>)))) =
     [False, True, False]"
    by (simp add: updateActiveNav_def page0_def in_span_def mark_links_def mark_link_def)
  have 5: "frame_queue (snd (scroll_event 700 page0)) = [HeaderFrame]"
    unfolding 2 by simp
  have 6: "map link_active (navLinkItems (snd (animation_frame (snd (scroll_event 700 page0))))) =
     [False, False, False]"
    unfolding 3 by (simp add: page0_def)
  show ?thesis
    using 1 3 4 5 6 by simp
qed

section \<open>Verified properties: missing elements\<close>

lemma closeMenu_error:
  "(fst (closeMenu d) = Some TypeError) = (navLinks d = None \<or> menuToggle d = None)"
  by (simp add: closeMenu_def Let_def split: option.splits)

lemma toggleMenu_error:
  "(fst (toggleMenu d) = Some TypeError) = (navLinks d = None \<or> menuToggle d = None)"
  by (simp add: toggleMenu_def Let_def split: option.splits)

lemma resize_close_error:
  "menuToggle d \<noteq> None \<Longrightarrow>
   (fst (resize_close d) = Some TypeError) = (innerWidth d > 768 \<and> navLinks d = None)"
  by (simp add: resize_close_def closeMenu_error split: option.splits)

lemma resize_debounce_ok: "fst (resize_debounce d) = None"
  by (simp add: resize_debounce_def Let_def split: prod.splits)

lemma resize_listener_error:
  "menuToggle d \<noteq> None \<Longrightarrow>
   (fst (resize_listener d) = Some TypeError) = (innerWidth d > 768 \<and> navLinks d = None)"
proof -
  assume t: "menuToggle d \<noteq> None"
  obtain e d1 where ed: "resize_close d = (e, d1)"
    by (cases "resize_close d")
  show ?thesis
  proof (cases e)
    case None
    then show ?thesis
      using resize_close_error [OF t] ed by (simp add: resize_listener_def resize_debounce_ok)
  next
    case (Some x)
    then show ?thesis
      using resize_close_error [OF t] ed by (cases x) (simp add: resize_listener_def)
  qed
qed

text \<open>
  C3, as amended. Only the attachment of the toggle's click listener is guarded by an
  existence check: with the toggle absent a click on it runs nothing. The other
  handlers use the nav-links panel and the header unchecked. With the toggle present,
  the toggle and close operations raise a \<open>TypeError\<close> exactly when the panel is
  absent; the outside-click listener and the close-on-click listener of the nav links
  exactly when moreover the viewport is at most 768 wide; the keydown listener exactly
  when moreover the key is Escape; and the resize listener exactly when moreover the
  new width exceeds 768. With or without the toggle, the two scroll listeners and
  \<open>updateActiveNav\<close> never raise, the frame callback of the header update raises
  exactly when the header is absent, and the smooth-scroll listener of a nav link
  raises exactly when the link has no \<open>href\<close> attribute, or its \<open>href\<close> is a
  fragment whose target exists while the header is absent. So with the three elements
  present none of these handlers raises, except the smooth-scroll listener on a link
  without \<open>href\<close>.
\<close>

theorem handlers_raise_iff:
  "(menuToggle d = None \<longrightarrow> toggle_click d = (None, d)) \<and>
   (menuToggle d \<noteq> None \<longrightarrow>
      ((fst (toggle_click d) = Some TypeError) = (navLinks d = None)) \<and>
      ((fst (closeMenu d) = Some TypeError) = (navLinks d = None)) \<and>
      ((fst (document_click e d) = Some TypeError) = (innerWidth d \<le> 768 \<and> navLinks d = None)) \<and>
      ((fst (link_close_click d) = Some TypeError) = (innerWidth d \<le> 768 \<and> navLinks d = None)) \<and>
      ((fst (keydown k d) = Some TypeError) = (k = ''Escape'' \<and> navLinks d = None)) \<and>
      ((fst (resize_event w d) = Some TypeError) = (w > 768 \<and> navLinks d = None))) \<and>
   fst (scroll_event y d) = [] \<and>
   fst (updateActiveNav d) = None \<and>
   ((fst (frame_callback HeaderFrame d) = Some TypeError) = (header d = None)) \<and>
   ((fst (smooth_scroll_click l d) = Some TypeError) =
      (href l = None \<or>
       (\<exists>targetId. href l = Some (CHR ''#'' # targetId) \<and>
          getElementById d targetId \<noteq> None \<and> header d = None))) \<and>
   (menuToggle d \<noteq> None \<and> navLinks d \<noteq> None \<and> header d \<noteq> None \<longrightarrow>
      fst (toggle_click d) = None \<and> fst (closeMenu d) = None \<and>
      fst (document_click e d) = None \<and> fst (link_close_click d) = None \<and>
      fst (keydown k d) = None \<and> fst (resize_event w d) = None \<and>
      fst (frame_callback HeaderFrame d) = None \<and>
      (href l \<noteq> None \<longrightarrow> fst (smooth_scroll_click l d) = None))"
proof -
  have none_iff: "(x = None) = (x \<noteq> Some TypeError)" for x :: "error option"
  proof (cases x)
    case None
    then show ?thesis by simp
  next
    case (Some z)
    then show ?thesis by (cases z) simp
  qed
  have a: "menuToggle d = None \<longrightarrow> toggle_click d = (None, d)"
    by (simp add: toggle_click_def)
  have b: "(fst (toggle_click d) = Some TypeError) = (navLinks d = None)"
    if "menuToggle d \<noteq> None"
    using that by (auto simp: toggle_click_def toggleMenu_error)
  have c: "(fst (closeMenu d) = Some TypeError) = (navLinks d = None)"
    if "menuToggle d \<noteq> None"
    using that by (auto simp: closeMenu_error)
  have f: "(fst (document_click e d) = Some TypeError) = (innerWidth d \<le> 768 \<and> navLinks d = None)"
    if "menuToggle d \<noteq> None"
    using that by (auto simp: document_click_def closeMenu_error Let_def split: option.splits)
  have lc: "(fst (link_close_click d) = Some TypeError) = (innerWidth d \<le> 768 \<and> navLinks d = None)"
    if "menuToggle d \<noteq> None"
    using that by (auto simp: link_close_click_def closeMenu_error)
  have g: "(fst (keydown k d) = Some TypeError) = (k = ''Escape'' \<and> navLinks d = None)"
    if "menuToggle d \<noteq> None"
    using that by (auto simp: keydown_def closeMenu_error split: option.splits)
  have h: "(fst (resize_event w d) = Some TypeError) = (w > 768 \<and> navLinks d = None)"
    if "menuToggle d \<noteq> None"
    using that resize_listener_error [of "d\<lparr>innerWidth := w\<rparr>"] by (simp add: resize_event_def)
  have i: "fst (scroll_event y d) = []"
    by (simp add: scroll_event_result)
  have u: "fst (updateActiveNav d) = None"
    by (simp add: updateActiveNav_def Let_def)
  have j: "(fst (frame_callback HeaderFrame d) = Some TypeError) = (header d = None)"
    by (simp add: handleScroll_def split: option.splits)
  have s: "(fst (smooth_scroll_click l d) = Some TypeError) =
      (href l = None \<or>
       (\<exists>targetId. href l = Some (CHR ''#'' # targetId) \<and>
          getElementById d targetId \<noteq> None \<and> header d = None))"
  proof (cases "href l")
    case None
    then show ?thesis
      by (simp add: smooth_scroll_click_def)
  next
    case (Some r)
    show ?thesis
    proof (cases r)
      case Nil
      then show ?thesis
        using Some by (simp add: smooth_scroll_click_def)
    next
      case (Cons c cs)
      then show ?thesis
        using Some by (auto simp: smooth_scroll_click_def Let_def split: option.splits)
    qed
  qed
  have all: "fst (toggle_click d) = None \<and> fst (closeMenu d) = None \<and>
      fst (document_click e d) = None \<and> fst (link_close_click d) = None \<and>
      fst (keydown k d) = None \<and> fst (resize_event w d) = None \<and>
      fst (frame_callback HeaderFrame d) = None \<and>
      (href l \<noteq> None \<longrightarrow> fst (smooth_scroll_click l d) = None)"
    if "menuToggle d \<noteq> None" "navLinks d \<noteq> None" "header d \<noteq> None"
    using b [OF that(1)] c [OF that(1)] f [OF that(1)] lc [OF that(1)] g [OF that(1)]
      h [OF that(1)] j s that(2,3)
    by (simp add: none_iff)
  show ?thesis
    using a b c f lc g h i u j s all by simp
qed

theorem handlers_raise_iff_witness:
  "menuToggle page0 \<noteq> None \<and> navLinks page0 \<noteq> None \<and> header page0 \<noteq> None \<and>
   fst (toggle_click page0) = None \<and>
   fst (closeMenu page0) = None \<and>
   fst (document_click click_elsewhere page0) = None \<and>
   fst (link_close_click page0) = None \<and>
   fst (keydown ''Escape'' page0) = None \<and>
   fst (resize_event 1024 page0) = None \<and>
   fst (frame_callback HeaderFrame page0) = None \<and>
   fst (smooth_scroll_click \<lparr>href = Some ''#about'', link_active = False\<rparr> page0) = None \<and>
   fst (smooth_scroll_click \<lparr>href = None, link_active = False\<rparr> page0) = Some TypeError \<and>
   fst (resize_event 1024 page_no_panel) = Some TypeError \<and>
   fst (link_close_click page_no_panel) = Some TypeError \<and>
   menuToggle (page0\<lparr>menuToggle := None\<rparr>) = None \<and>
   toggle_click (page0\<lparr>menuToggle := None\<rparr>) = (None, page0\<lparr>menuToggle := None\<rparr>)"
  using handlers_raise_iff [of page0 click_elsewhere "''Escape''" 1024 0
      "\<lparr>href = Some ''#about'', link_active = False\<rparr>"]
    handlers_raise_iff [of page0 click_elsewhere "''Escape''" 1024 0
      "\<lparr>href = None, link_active = False\<rparr>"]
    handlers_raise_iff [of page_no_panel click_elsewhere "''Escape''" 1024 0
      "\<lparr>href = None, link_active = False\<rparr>"]
    handlers_raise_iff [of "page0\<lparr>menuToggle := None\<rparr>" click_elsewhere "''Escape''" 1024 0
      "\<lparr>href = None, link_active = False\<rparr>"]
  by (simp add: page0_def page_no_panel_def)

text \<open>
  C3 as stated fails when the nav-links panel is missing: the keydown listener
  raises a \<open>TypeError\<close> on Escape.
\<close>

theorem keydown_missing_panel_counterexample:
  "navLinks page_no_panel = None \<and> fst (keydown ''Escape'' page_no_panel) = Some TypeError"
  by (simp add: keydown_def page_no_panel_def page0_def)

section \<open>Verified properties: clicks\<close>

lemma closeMenu_frame: "click_frame (snd (closeMenu d)) = click_frame d"
  by (simp add: closeMenu_def click_frame_def Let_def split: option.splits)

lemma toggleMenu_frame: "click_frame (snd (toggleMenu d)) = click_frame d"
  by (simp add: toggleMenu_def click_frame_def Let_def split: option.splits)

lemma toggle_click_frame: "click_frame (snd (toggle_click d)) = click_frame d"
  by (simp add: toggle_click_def toggleMenu_frame split: option.splits)

lemma link_close_click_frame: "click_frame (snd (link_close_click d)) = click_frame d"
  by (simp add: link_close_click_def closeMenu_frame)

lemma document_click_frame: "click_frame (snd (document_click e d)) = click_frame d"
  by (simp add: document_click_def closeMenu_frame Let_def split: option.splits)

lemma dispatch_snd_Cons: "snd (dispatch (h # hs) d) = snd (dispatch hs (snd (h d)))"
  by (cases "h d"; cases "dispatch hs (snd (h d))") simp

lemma dispatch_frame:
  "(\<And>h x. h \<in> set hs \<Longrightarrow> click_frame (snd (h x)) = click_frame x) \<Longrightarrow>
   click_frame (snd (dispatch hs d)) = click_frame d"
proof (induction hs arbitrary: d)
  case Nil
  then show ?case by simp
next
  case (Cons h hs)
  have "click_frame (snd (dispatch hs (snd (h d)))) = click_frame (snd (h d))"
    using Cons.IH [of "snd (h d)"] Cons.prems by simp
  then show ?case
    using Cons.prems [of h d] by (simp add: dispatch_snd_Cons del: dispatch.simps)
qed

text \<open>
  C6. Let the \<open>href\<close> of a nav link be \<open>#\<close> followed by \<open>targetId\<close>. If the document
  has an element with that identifier (and the header exists), the smooth-scroll
  listener raises no error, cancels the default navigation and requests a scroll to
  exactly the target's \<open>offsetTop\<close> minus the header's \<open>offsetHeight\<close>, and nothing
  else changes. If the document has no such element, the listener changes nothing:
  the default navigation is not cancelled and no scroll is requested.
\<close>

theorem smooth_scroll_click_fragment:
  assumes "href l = Some (CHR ''#'' # targetId)"
  shows "(\<forall>targetTop h. getElementById d targetId = Some targetTop \<and> header d = Some h \<longrightarrow>
            smooth_scroll_click l d =
              (None, d\<lparr>default_prevented := True,
                       scroll_requests := scroll_requests d @ [targetTop - hdr_offsetHeight h]\<rparr>)) \<and>
         (getElementById d targetId = None \<longrightarrow> smooth_scroll_click l d = (None, d))"
  using assms by (simp add: smooth_scroll_click_def Let_def)

theorem smooth_scroll_click_fragment_witness:
  "href \<lparr>href = Some ''#about'', link_active = False\<rparr> = Some (CHR ''#'' # ''about'') \<and>
   getElementById page0 ''about'' = Some 600 \<and>
   smooth_scroll_click \<lparr>href = Some ''#about'', link_active = False\<rparr> page0 =
     (None, page0\<lparr>default_prevented := True, scroll_requests := [520]\<rparr>) \<and>
   href \<lparr>href = Some ''#contact'', link_active = False\<rparr> = Some (CHR ''#'' # ''contact'') \<and>
   getElementById page0 ''contact'' = None \<and>
   smooth_scroll_click \<lparr>href = Some ''#contact'', link_active = False\<rparr> page0 = (None, page0)"
proof -
  have a: "href \<lparr>href = Some ''#about'', link_active = False\<rparr> = Some (CHR ''#'' # ''about'')"
    by simp
  have c: "href \<lparr>href = Some ''#contact'', link_active = False\<rparr> = Some (CHR ''#'' # ''contact'')"
    by simp
  have ga: "getElementById page0 ''about'' = Some 600"
    by (simp add: getElementById_def page0_def)
  have gc: "getElementById page0 ''contact'' = None"
    by (simp add: getElementById_def page0_def)
  have h: "header page0 = Some \<lparr>scrolled = False, hdr_offsetHeight = 80\<rparr>"
    by (simp add: page0_def)
  have s: "scroll_requests page0 = []"
    by (simp add: page0_def)
  show ?thesis
    using smooth_scroll_click_fragment [OF a, of page0] smooth_scroll_click_fragment [OF c, of page0]
      ga gc h s
    by simp
qed

text \<open>
  C10, as amended. A click that is on none of the anchors matched by
  \<open>.nav-links a\<close> runs neither the smooth-scroll listener nor the close-on-click
  listener, so the default navigation is not cancelled and no scroll is requested. The
  menu state is unchanged, unless the click is inside the toggle, or the viewport is at
  most 768 wide, the menu is open and the click is outside the nav-links panel: in
  that last case, on a page where the toggle exists, the click listener of the
  document raises no error and closes the menu.
\<close>

theorem click_elsewhere_effect:
  assumes "on_link e = None"
  shows "link_listeners e d = [] \<and>
         default_prevented (snd (click_event e d)) = False \<and>
         scroll_requests (snd (click_event e d)) = scroll_requests d \<and>
         (\<not> on_toggle e \<and> \<not> (innerWidth d \<le> 768 \<and> \<not> in_nav e \<and> menu_open d) \<longrightarrow>
            menu_state (snd (click_event e d)) = menu_state d) \<and>
         (\<not> on_toggle e \<and> innerWidth d \<le> 768 \<and> \<not> in_nav e \<and> menu_open d \<and>
          menuToggle d \<noteq> None \<longrightarrow>
            fst (click_event e d) = [] \<and> menu_closed (snd (click_event e d)))"
proof -
  let ?d0 = "d\<lparr>default_prevented := False\<rparr>"
  have ll: "link_listeners e d = []"
    using assms by (simp add: link_listeners_def)
  have fr: "click_frame (snd (click_event e d)) = click_frame ?d0"
    unfolding click_event_def ll
    by (rule dispatch_frame) (auto simp: toggle_click_frame document_click_frame)
  have dp: "default_prevented (snd (click_event e d)) = False"
    and sr: "scroll_requests (snd (click_event e d)) = scroll_requests d"
    using fr by (simp_all add: click_frame_def)
  have ce: "click_event e d = dispatch [document_click e] ?d0" if "\<not> on_toggle e"
    using ll that by (simp add: click_event_def)
  have same: "menu_state (snd (click_event e d)) = menu_state d"
    if "\<not> on_toggle e" "\<not> (innerWidth d \<le> 768 \<and> \<not> in_nav e \<and> menu_open d)"
    using that ce
    by (auto simp: document_click_def menu_state_def menu_open_def Let_def
        split: option.splits prod.splits)
  have closes: "fst (click_event e d) = [] \<and> menu_closed (snd (click_event e d))"
    if "\<not> on_toggle e" "innerWidth d \<le> 768" "\<not> in_nav e" "menu_open d" "menuToggle d \<noteq> None"
    using that ce
    by (auto simp: document_click_def closeMenu_def menu_closed_def menu_open_def Let_def
        split: option.splits prod.splits)
  show ?thesis
    using ll dp sr same closes by simp
qed

theorem click_elsewhere_effect_witness:
  "on_link click_elsewhere = None \<and>
   default_prevented (snd (click_event click_elsewhere page_open)) = False \<and>
   scroll_requests (snd (click_event click_elsewhere page_open)) = [] \<and>
   menu_closed (snd (click_event click_elsewhere page_open)) \<and>
   menu_state (snd (click_event click_elsewhere (page_open\<lparr>innerWidth := 1024\<rparr>))) =
     menu_state (page_open\<lparr>innerWidth := 1024\<rparr>)"
proof -
  have a: "on_link click_elsewhere = None"
    by (simp add: click_elsewhere_def)
  show ?thesis
    using a click_elsewhere_effect [OF a, of page_open]
      click_elsewhere_effect [OF a, of "page_open\<lparr>innerWidth := 1024\<rparr>"]
    by (simp add: click_elsewhere_def page_open_def page0_def menu_open_def)
qed

text \<open>
  C10 as stated fails on a narrow viewport with the menu open: a click outside the
  panel, on a link that is no nav link, closes the menu.
\<close>

theorem click_elsewhere_counterexample:
  "on_link click_elsewhere = None \<and>
   menu_state (snd (click_event click_elsewhere page_open)) \<noteq> menu_state page_open"
  by (simp add: click_event_def link_listeners_def document_click_def closeMenu_def
      menu_state_def click_elsewhere_def page_open_def page0_def)

section \<open>Verified properties: the resize debounce\<close>

lemma run_append: "run (as @ bs) d = run bs (run as d)"
  by (induction as arbitrary: d) simp_all

lemma closeMenu_timer_view: "timer_view (snd (closeMenu d)) = timer_view d"
  by (simp add: closeMenu_def timer_view_def Let_def split: option.splits)

lemma closeMenu_present: "menu_present d \<Longrightarrow> closeMenu d = (e, d1) \<Longrightarrow> e = None \<and> menu_present d1"
  by (auto simp: closeMenu_def menu_present_def Let_def split: option.splits)

lemma resize_close_timer_view: "timer_view (snd (resize_close d)) = timer_view d"
  by (simp add: resize_close_def closeMenu_timer_view split: option.splits)

lemma resize_close_present:
  "menu_present d \<Longrightarrow> resize_close d = (e, d1) \<Longrightarrow> e = None \<and> menu_present d1"
  using closeMenu_present [of d e d1]
  by (auto simp: resize_close_def menu_present_def split: option.splits if_splits)

lemma timer_inv_view: "timer_view d' = timer_view d \<Longrightarrow> timer_inv d' = timer_inv d"
  by (simp add: timer_view_def timer_inv_def)

text \<open>Under the invariant the debounce leaves exactly the timer it has just set.\<close>

lemma clearTimeout_inv: "timer_inv d \<Longrightarrow> timers (clearTimeout (resizeTimer d) d) = []"
proof (cases "timers d")
  case Nil
  then show ?thesis
    by (simp add: clearTimeout_def split: option.splits)
next
  case (Cons x xs)
  assume "timer_inv d"
  then have "xs = []" and "resizeTimer d = Some (fst x)"
    using Cons by (auto simp: timer_inv_def)
  then show ?thesis
    using Cons by (simp add: clearTimeout_def split: prod.splits)
qed

lemma resize_debounce_view:
  "timer_inv d \<Longrightarrow>
   timer_view (snd (resize_debounce d)) =
     ([(next_handle d, now d + 250)], Some (next_handle d), Suc (next_handle d), now d,
      resize_log d)"
proof -
  assume inv: "timer_inv d"
  let ?d1 = "clearTimeout (resizeTimer d) d"
  have 1: "timers ?d1 = []"
    using inv by (rule clearTimeout_inv)
  have 2: "next_handle ?d1 = next_handle d" "now ?d1 = now d" "resize_log ?d1 = resize_log d"
    by (simp_all add: clearTimeout_def split: option.splits)
  show ?thesis
    using 1 2 by (simp add: resize_debounce_def setTimeout_def timer_view_def Let_def)
qed

lemma resize_debounce_present: "menu_present (snd (resize_debounce d)) = menu_present d"
  by (simp add: resize_debounce_def setTimeout_def clearTimeout_def menu_present_def Let_def
      split: option.splits)

lemma step_resize_inv: "timer_inv d \<Longrightarrow> timer_inv (step (Resize w) d)"
proof -
  assume inv: "timer_inv d"
  let ?d0 = "d\<lparr>innerWidth := w\<rparr>"
  have inv0: "timer_inv ?d0"
    using inv by (simp add: timer_inv_def)
  obtain e d1 where ed: "resize_close ?d0 = (e, d1)"
    by (cases "resize_close ?d0")
  have inv1: "timer_inv d1"
    using resize_close_timer_view [of ?d0] ed inv0 timer_inv_view [of d1 ?d0] by simp
  show ?thesis
  proof (cases e)
    case None
    have "timer_inv (snd (resize_debounce d1))"
      using resize_debounce_view [OF inv1] by (simp add: timer_view_def timer_inv_def)
    then show ?thesis
      using None ed by (simp add: resize_event_def resize_listener_def)
  next
    case (Some x)
    then show ?thesis
      using inv1 ed by (simp add: resize_event_def resize_listener_def)
  qed
qed

lemma tick_inv: "timer_inv d \<Longrightarrow> timer_inv (tick d)"
proof -
  assume inv: "timer_inv d"
  let ?keep = "filter (\<lambda>(h, due). \<not> due \<le> Suc (now d)) (timers d)"
  from inv have l: "length (timers d) \<le> 1"
    by (simp add: timer_inv_def)
  have f: "length ?keep \<le> 1"
    by (rule order_trans [OF length_filter_le l])
  have g: "list_all (\<lambda>(h, due). resizeTimer d = Some h) ?keep"
    using inv by (auto simp: timer_inv_def list_all_iff)
  have "timers (tick d) = ?keep" and "resizeTimer (tick d) = resizeTimer d"
    by (simp_all add: tick_def Let_def)
  then show ?thesis
    using f g by (simp only: timer_inv_def)
qed

lemma step_inv: "timer_inv d \<Longrightarrow> timer_inv (step a d)"
proof (cases a)
  case (Resize w)
  assume "timer_inv d"
  then show ?thesis
    unfolding Resize by (rule step_resize_inv)
next
  case Tick
  assume "timer_inv d"
  then show ?thesis
    unfolding Tick by (simp add: tick_inv)
qed

lemma run_inv: "timer_inv d \<Longrightarrow> timer_inv (run as d)"
  by (induction as arbitrary: d) (simp_all add: step_inv del: step.simps)

text \<open>A resize event on a page with panel and toggle.\<close>

lemma step_resize_view:
  assumes "timer_inv d" and "menu_present d"
  shows "timer_view (step (Resize w) d) =
           ([(next_handle d, now d + 250)], Some (next_handle d), Suc (next_handle d), now d,
            resize_log d) \<and>
         menu_present (step (Resize w) d)"
proof -
  let ?d0 = "d\<lparr>innerWidth := w\<rparr>"
  have inv0: "timer_inv ?d0" and p0: "menu_present ?d0"
    using assms by (simp_all add: timer_inv_def menu_present_def)
  have v0: "timer_view ?d0 = timer_view d"
    by (simp add: timer_view_def)
  obtain e d1 where ed: "resize_close ?d0 = (e, d1)"
    by (cases "resize_close ?d0")
  have e: "e = None" and p1: "menu_present d1"
    using resize_close_present [OF p0 ed] by simp_all
  have v1: "timer_view d1 = timer_view d"
    using resize_close_timer_view [of ?d0] ed v0 by simp
  then have inv1: "timer_inv d1"
    using assms(1) timer_inv_view by blast
  have st: "step (Resize w) d = snd (resize_debounce d1)"
    using e ed by (simp add: resize_event_def resize_listener_def)
  have "next_handle d1 = next_handle d" "now d1 = now d" "resize_log d1 = resize_log d"
    using v1 by (simp_all add: timer_view_def)
  then show ?thesis
    using resize_debounce_view [OF inv1] resize_debounce_present [of d1] p1 st by simp
qed

text \<open>Time passing while the one pending timer is not yet due, and up to its due time.\<close>

lemma tick_quiet:
  assumes "timers d = [(h, due)]" and "Suc (now d) < due"
  shows "timer_view (tick d) = ([(h, due)], resizeTimer d, next_handle d, Suc (now d), resize_log d)
         \<and> menu_present (tick d) = menu_present d"
  using assms by (simp add: tick_def timer_view_def menu_present_def Let_def)

lemma ticks_quiet:
  "timers d = [(h, due)] \<Longrightarrow> now d + g < due \<Longrightarrow>
   timer_view (run (replicate g Tick) d) =
     ([(h, due)], resizeTimer d, next_handle d, now d + g, resize_log d) \<and>
   menu_present (run (replicate g Tick) d) = menu_present d"
proof (induction g arbitrary: d)
  case 0
  then show ?case by (simp add: timer_view_def)
next
  case (Suc g)
  have q: "timer_view (tick d) = ([(h, due)], resizeTimer d, next_handle d, Suc (now d), resize_log d)
         \<and> menu_present (tick d) = menu_present d"
    using Suc.prems by (intro tick_quiet) simp_all
  then have t: "timers (tick d) = [(h, due)]" and n: "now (tick d) + g < due"
    using Suc.prems by (simp_all add: timer_view_def)
  show ?case
    using Suc.IH [OF t n] q by (simp add: timer_view_def)
qed

lemma tick_fire:
  assumes "timers d = [(h, Suc (now d))]"
  shows "timers (tick d) = [] \<and> resize_log (tick d) = resize_log d @ [Suc (now d)]"
  using assms by (simp add: tick_def Let_def)

lemma ticks_fire:
  assumes "timers d = [(h, now d + Suc k)]"
  shows "timers (run (replicate (Suc k) Tick) d) = [] \<and>
         resize_log (run (replicate (Suc k) Tick) d) = resize_log d @ [now d + Suc k]"
proof -
  let ?d1 = "run (replicate k Tick) d"
  have v: "timer_view ?d1 =
     ([(h, now d + Suc k)], resizeTimer d, next_handle d, now d + k, resize_log d)"
    using ticks_quiet [OF assms, of k] by simp
  then have t: "timers ?d1 = [(h, Suc (now ?d1))]" and l: "resize_log ?d1 = resize_log d"
    and n: "now ?d1 = now d + k"
    by (simp_all add: timer_view_def)
  have "replicate (Suc k) Tick = replicate k Tick @ [Tick]"
    by (simp add: replicate_append_same)
  then have "run (replicate (Suc k) Tick) d = run [Tick] ?d1"
    by (simp only: run_append)
  then have "run (replicate (Suc k) Tick) d = tick ?d1"
    by simp
  then show ?thesis
    using tick_fire [OF t] l n by simp
qed

lemma burst_tail_log:
  "timers d = [(h, now d + 250)] \<Longrightarrow> resizeTimer d = Some h \<Longrightarrow> menu_present d \<Longrightarrow>
   list_all (\<lambda>(g, w). g < 250) rest \<Longrightarrow>
   timers (run (burst_tail rest) d) = [] \<and>
   resize_log (run (burst_tail rest) d) = resize_log d @ [now d + sum_list (map fst rest) + 250]"
proof (induction rest arbitrary: d h)
  case Nil
  have "timers d = [(h, now d + Suc 249)]"
    using Nil.prems(1) by simp
  from ticks_fire [OF this] show ?case
    by (simp add: burst_tail_def)
next
  case (Cons gw rest)
  obtain g w where gw: "gw = (g, w)"
    by (cases gw)
  have g: "g < 250" and rest: "list_all (\<lambda>(g, w). g < 250) rest"
    using Cons.prems(4) gw by simp_all
  let ?d1 = "run (replicate g Tick) d"
  let ?d2 = "step (Resize w) ?d1"
  have v1: "timer_view ?d1 = ([(h, now d + 250)], resizeTimer d, next_handle d, now d + g, resize_log d)"
    and p1: "menu_present ?d1"
    using ticks_quiet [OF Cons.prems(1), of g] g Cons.prems(3) by simp_all
  have inv1: "timer_inv ?d1"
    using v1 Cons.prems(2) by (simp add: timer_view_def timer_inv_def)
  have v2: "timer_view ?d2 =
      ([(next_handle ?d1, now ?d1 + 250)], Some (next_handle ?d1), Suc (next_handle ?d1), now ?d1,
       resize_log ?d1)"
    and p2: "menu_present ?d2"
    using step_resize_view [OF inv1 p1, of w] by simp_all
  have n1: "now ?d1 = now d + g" and l1: "resize_log ?d1 = resize_log d"
    using v1 by (simp_all add: timer_view_def)
  have t2: "timers ?d2 = [(next_handle ?d1, now ?d2 + 250)]"
    and r2: "resizeTimer ?d2 = Some (next_handle ?d1)"
    and n2: "now ?d2 = now d + g" and l2: "resize_log ?d2 = resize_log d"
    using v2 n1 l1 by (simp_all add: timer_view_def)
  have split: "run (burst_tail (gw # rest)) d = run (burst_tail rest) ?d2"
    by (simp add: burst_tail_def gw run_append)
  have sum: "sum_list (map fst (gw # rest)) = g + sum_list (map fst rest)"
    by (simp add: gw)
  show ?case
    unfolding split sum using Cons.IH [OF t2 r2 p2 rest] n2 l2 by (simp add: add.assoc)
qed

text \<open>With no timer pending, time passing writes nothing to the log.\<close>

lemma ticks_idle:
  "timers d = [] \<Longrightarrow>
   timers (run (replicate g Tick) d) = [] \<and>
   resize_log (run (replicate g Tick) d) = resize_log d"
proof (induction g arbitrary: d)
  case 0
  then show ?case by simp
next
  case (Suc g)
  have "timers (tick d) = []" and "resize_log (tick d) = resize_log d"
    using Suc.prems by (simp_all add: tick_def Let_def)
  then show ?case
    using Suc.IH [of "tick d"] by simp
qed

text \<open>
  C7, as amended. Start from a page on which at most one timer is pending, the one
  whose handle \<open>resizeTimer\<close> holds (as on a freshly loaded page, where none is). Then
  after any sequence of resize events and milliseconds at most one timer is pending.
  And if the nav-links panel and the menu toggle exist, then after a burst of resize
  events in which successive events are less than 250 milliseconds apart, followed by
  250 milliseconds of quiet, the log has gained exactly one line, written 250
  milliseconds after the last event of the burst, and no timer is pending.
\<close>

theorem resize_debounced_once:
  assumes "timer_inv d"
  shows "length (timers (run as d)) \<le> 1 \<and>
         (menu_present d \<and> list_all (\<lambda>(g, w). g < 250) rest \<longrightarrow>
            timers (run (burst w0 rest) d) = [] \<and>
            resize_log (run (burst w0 rest) d) =
              resize_log d @ [now d + sum_list (map fst rest) + 250])"
proof -
  have a: "length (timers (run as d)) \<le> 1"
    using run_inv [OF assms, of as] by (simp add: timer_inv_def)
  have b: "timers (run (burst w0 rest) d) = [] \<and>
            resize_log (run (burst w0 rest) d) =
              resize_log d @ [now d + sum_list (map fst rest) + 250]"
    if p: "menu_present d" and r: "list_all (\<lambda>(g, w). g < 250) rest"
  proof -
    let ?d1 = "step (Resize w0) d"
    have v: "timer_view ?d1 =
        ([(next_handle d, now d + 250)], Some (next_handle d), Suc (next_handle d), now d,
         resize_log d)"
      and p1: "menu_present ?d1"
      using step_resize_view [OF assms p, of w0] by simp_all
    then have t: "timers ?d1 = [(next_handle d, now ?d1 + 250)]"
      and rt: "resizeTimer ?d1 = Some (next_handle d)"
      and n: "now ?d1 = now d" and l: "resize_log ?d1 = resize_log d"
      by (simp_all add: timer_view_def)
    show ?thesis
      using burst_tail_log [OF t rt p1 r] n l by (simp add: burst_def)
  qed
  show ?thesis
    using a b by simp
qed

theorem resize_debounced_once_witness:
  "timer_inv page0 \<and> menu_present page0 \<and>
   list_all (\<lambda>(g, w). g < 250) [(100 :: nat, 1000 :: int), (249, 900)] \<and>
   length (timers (run [Resize 1024, Tick, Resize 1000] page0)) \<le> 1 \<and>
   timers (run (burst 1024 [(100, 1000), (249, 900)]) page0) = [] \<and>
   resize_log (run (burst 1024 [(100, 1000), (249, 900)]) page0) = [599]"
proof -
  have i: "timer_inv page0"
    by (simp add: timer_inv_def page0_def)
  have p: "menu_present page0"
    by (simp add: menu_present_def page0_def)
  have n: "now page0 = 0" "resize_log page0 = []"
    by (simp_all add: page0_def)
  show ?thesis
    using i p n resize_debounced_once [OF i, of "[Resize 1024, Tick, Resize 1000]"
        "[(100, 1000), (249, 900)]" 1024]
    by simp
qed

text \<open>
  C7 as stated fails on a page without the nav-links panel: a resize to a width above
  768 throws at line 206, before the timer is set, so after the burst and 250
  milliseconds of quiet the log is still empty.
\<close>

theorem resize_missing_panel_counterexample:
  "timer_inv page_no_panel \<and> navLinks page_no_panel = None \<and>
   resize_log (run (burst 1024 []) page_no_panel) = []"
proof -
  have i: "timer_inv page_no_panel" and n: "navLinks page_no_panel = None"
    by (simp_all add: timer_inv_def page_no_panel_def page0_def)
  have s: "snd (resize_event 1024 page_no_panel) = page_no_panel\<lparr>innerWidth := 1024\<rparr>"
    by (simp add: resize_event_def resize_listener_def resize_close_def page_no_panel_def
        page0_def)
  have t: "timers (page_no_panel\<lparr>innerWidth := 1024\<rparr>) = []"
    and l: "resize_log (page_no_panel\<lparr>innerWidth := 1024\<rparr>) = []"
    by (simp_all add: page_no_panel_def page0_def)
  have "resize_log (run (replicate 250 Tick) (page_no_panel\<lparr>innerWidth := 1024\<rparr>)) = []"
    using ticks_idle [OF t, of 250] l by simp
  then have "resize_log (run (burst 1024 []) page_no_panel) = []"
    by (simp add: burst_def burst_tail_def s)
  then show ?thesis
    using i n by simp
qed

end
